theory Spec2Isabelle
  imports Main
begin

section \<open>JavaScript data\<close>

text \<open>
  The service in \<^verbatim>\<open>src/services/CampaignService.js\<close> builds request objects, hands them to
  collaborators (the feathers store, the network accessor, the contract wrappers) and
  forwards the answers to the caller's callbacks. The model keeps the request objects as
  the object literals of the source and records what the service does as a list of
  actions.

  The status constants \<^verbatim>\<open>Campaign.ACTIVE\<close>, \<^verbatim>\<open>Milestone.CANCELED\<close>, ... are
  declared in the model classes, which are not part of the source under study; they stay
  symbolic.
\<close>

datatype status_const =
    Campaign_ACTIVE
  | Campaign_CANCELED
  | Milestone_CANCELED
  | Milestone_PROPOSED
  | Milestone_REJECTED
  | Milestone_PENDING

text \<open>
  A rejection value. The service reads \<^verbatim>\<open>err.message\<close> and interpolates
  \<^verbatim>\<open>JSON.stringify(err, null, 2)\<close>; \<open>json\<close> is the text that call yields.
\<close>

record js_error =
  message :: "string option"
  json :: string

text \<open>
  JavaScript values: strings, numbers, booleans, the symbolic constants, object literals
  (fields in the order written), arrays, and rejection values.
\<close>

datatype jv =
    JStr string
  | JNum int
  | JBool bool
  | JConst status_const
  | JObj "(string \<times> jv) list"
  | JArr "jv list"
  | JErr js_error

text \<open>Property access \<^verbatim>\<open>o.k\<close>: \<open>None\<close> is JavaScript's \<^verbatim>\<open>undefined\<close>.\<close>

fun obj_get :: "jv \<Rightarrow> string \<Rightarrow> jv option" where
  "obj_get (JObj kvs) k = map_of kvs k"
| "obj_get v k = None"

fun obj_keys :: "jv \<Rightarrow> string list" where
  "obj_keys (JObj kvs) = map fst kvs"
| "obj_keys v = []"

text \<open>The store's answer to \<^verbatim>\<open>find\<close>: \<^verbatim>\<open>{ data, total }\<close>.\<close>

record find_resp =
  data :: "jv list"
  total_count :: int

datatype find_outcome = Find_resolves find_resp | Find_rejects js_error

text \<open>What a push subscription delivers: a new result set, or a failure.\<close>

datatype sub_event = Emission find_resp | Delivery_failure js_error

text \<open>
  \<^verbatim>\<open>paramsForServer\<close> comes from \<^verbatim>\<open>feathers-hooks-common\<close>; its result is kept as the
  call on its argument.
\<close>

datatype params = Plain jv | ParamsForServer jv

section \<open>Actions\<close>

datatype callback = resolve | reject | onSuccess | onError | afterCreate | afterMined

text \<open>
  Everything the service does to the outside, in the order it does it:
  \<^item> \<open>Store_find s q\<close>: \<^verbatim>\<open>feathersClient.service(s).find(q)\<close>;
  \<^item> \<open>Store_watch_find s w q\<close>: \<^verbatim>\<open>feathersClient.service(s).watch(w).find(q).subscribe(...)\<close>;
  \<^item> \<open>Store_patch s i d\<close>: \<^verbatim>\<open>feathersClient.service(s).patch(i, d)\<close>;
  \<^item> \<open>Store_create s d\<close>: \<^verbatim>\<open>feathersClient.service(s).create(d)\<close>;
  \<^item> \<open>Call_getNetwork\<close>, \<open>Call_getWeb3\<close>: the two accessors;
  \<^item> \<open>Call_newCampaign f name url parent reviewer sender\<close>:
    \<^verbatim>\<open>f.newCampaign(name, url, parent, reviewer, { from: sender })\<close>;
  \<^item> \<open>Construct_LPPCampaign w a\<close>: \<^verbatim>\<open>new LPPCampaign(w, a)\<close>;
  \<^item> \<open>Call_cancelCampaign sender\<close>: \<^verbatim>\<open>lppCampaign.cancelCampaign({ from: sender })\<close>;
  \<^item> \<open>Call cb args\<close>: a callback of the caller (or the promise's \<^verbatim>\<open>resolve\<close>, \<^verbatim>\<open>reject\<close>)
    invoked with the argument list \<open>args\<close>;
  \<^item> \<open>ErrorPopup msg detail\<close>: the error sink.
\<close>

datatype action =
    Store_find string jv
  | Store_watch_find string jv params
  | Store_patch string "string option" jv
  | Store_create string jv
  | Call_getNetwork
  | Call_getWeb3
  | Call_newCampaign string string string int string string
  | Construct_LPPCampaign string string
  | Call_cancelCampaign string
  | Call callback "jv list"
  | ErrorPopup string jv

section \<open>Read operations\<close>

text \<open>
  A default parameter value (\<^verbatim>\<open>$limit = 100\<close>) applies when the argument is
  \<^verbatim>\<open>undefined\<close>, here \<open>None\<close>.
\<close>

definition default_param :: "jv option \<Rightarrow> jv \<Rightarrow> jv" where
  "default_param arg d = (case arg of None \<Rightarrow> d | Some v \<Rightarrow> v)"

text \<open>
  \<^verbatim>\<open>get(id)\<close>. The model constructors are not part of the source under study and are
  parameters: \<open>new_Campaign\<close> is \<^verbatim>\<open>new Campaign(r)\<close> on a record \<open>r\<close> of the store (a
  domain object is a JavaScript value like any other).
  When \<^verbatim>\<open>resp.data\<close> is empty, \<^verbatim>\<open>resp.data[0]\<close> is \<^verbatim>\<open>undefined\<close>, and what
  \<^verbatim>\<open>new Campaign(undefined)\<close> does is the parameter \<open>new_Campaign_undefined\<close>: it returns
  an object (\<open>Inr\<close>) or throws (\<open>Inl\<close>); a throw inside the \<^verbatim>\<open>then\<close> handler rejects the
  chained promise and reaches \<^verbatim>\<open>.catch(reject)\<close>.
\<close>

definition get_query :: "jv \<Rightarrow> jv" where
  "get_query cid = JObj [(''query'', JObj [(''_id'', cid)])]"

definition get ::
  "(jv \<Rightarrow> jv) \<Rightarrow> js_error + jv \<Rightarrow> jv \<Rightarrow> find_outcome \<Rightarrow> action list" where
  "get new_Campaign new_Campaign_undefined cid outcome =
     Store_find ''campaigns'' (get_query cid) #
     (case outcome of
        Find_resolves resp \<Rightarrow>
          (case data resp of
             r # rs \<Rightarrow> [Call resolve [new_Campaign r]]
           | [] \<Rightarrow>
               (case new_Campaign_undefined of
                  Inr c \<Rightarrow> [Call resolve [c]]
                | Inl x \<Rightarrow> [Call reject [JErr x]]))
      | Find_rejects e \<Rightarrow> [Call reject [JErr e]])"

text \<open>\<^verbatim>\<open>getCampaigns($limit = 100, $skip = 0, onSuccess, onError)\<close>.\<close>

definition getCampaigns_query :: "jv option \<Rightarrow> jv option \<Rightarrow> jv" where
  "getCampaigns_query limit skip =
     JObj
       [(''projectId'', JObj [(''$gt'', JNum 0)]),
        (''status'', JConst Campaign_ACTIVE),
        (''$limit'', default_param limit (JNum 100)),
        (''$skip'', default_param skip (JNum 0)),
        (''$sort'', JObj [(''createdAt'', JNum (- 1))])]"

definition getCampaigns ::
  "(jv \<Rightarrow> jv) \<Rightarrow> jv option \<Rightarrow> jv option \<Rightarrow> find_outcome \<Rightarrow> action list" where
  "getCampaigns new_Campaign limit skip outcome =
     Store_find ''campaigns'' (JObj [(''query'', getCampaigns_query limit skip)]) #
     (case outcome of
        Find_resolves resp \<Rightarrow>
          [Call onSuccess [JArr (map new_Campaign (data resp)), JNum (total_count resp)]]
      | Find_rejects e \<Rightarrow> [Call onError [JErr e]])"

text \<open>\<^verbatim>\<open>getMilestones(id, $limit = 100, $skip = 0, onSuccess, onError)\<close>.\<close>

definition getMilestones_query :: "jv \<Rightarrow> jv option \<Rightarrow> jv option \<Rightarrow> jv" where
  "getMilestones_query cid limit skip =
     JObj
       [(''campaignId'', cid),
        (''status'',
           JObj
             [(''$nin'',
                 JArr
                   [JConst Milestone_CANCELED, JConst Milestone_PROPOSED,
                    JConst Milestone_REJECTED, JConst Milestone_PENDING])]),
        (''$sort'', JObj [(''createdAt'', JNum (- 1))]),
        (''$limit'', default_param limit (JNum 100)),
        (''$skip'', default_param skip (JNum 0))]"

definition getMilestones ::
  "jv \<Rightarrow> jv option \<Rightarrow> jv option \<Rightarrow> find_outcome \<Rightarrow> action list" where
  "getMilestones cid limit skip outcome =
     Store_find ''milestones'' (JObj [(''query'', getMilestones_query cid limit skip)]) #
     (case outcome of
        Find_resolves resp \<Rightarrow> [Call onSuccess [JArr (data resp), JNum (total_count resp)]]
      | Find_rejects e \<Rightarrow> [Call onError [JErr e]])"

text \<open>
  \<^verbatim>\<open>subscribeDonations(id, onSuccess, onError)\<close>. The call returns what
  \<^verbatim>\<open>subscribe\<close> returns, the parameter \<open>subscription\<close>; afterwards every event of the
  subscription runs one of the two handlers given to \<^verbatim>\<open>subscribe\<close>.
\<close>

definition subscribeDonations_query :: "jv \<Rightarrow> jv" where
  "subscribeDonations_query cid =
     JObj
       [(''campaignId'', cid),
        (''isReturn'', JBool False),
        (''$sort'', JObj [(''createdAt'', JNum (- 1))])]"

definition subscribeDonations_handler :: "(jv \<Rightarrow> jv) \<Rightarrow> sub_event \<Rightarrow> action list" where
  "subscribeDonations_handler new_Donation ev =
     (case ev of
        Emission resp \<Rightarrow> [Call onSuccess [JArr (map new_Donation (data resp))]]
      | Delivery_failure e \<Rightarrow> [Call onError [JErr e]])"

definition subscribeDonations ::
  "(jv \<Rightarrow> jv) \<Rightarrow> jv \<Rightarrow> 'h \<Rightarrow> sub_event list \<Rightarrow> 'h \<times> action list" where
  "subscribeDonations new_Donation cid subscription evs =
     (subscription,
      Store_watch_find ''donations'' (JObj [(''listStrategy'', JStr ''always'')])
        (ParamsForServer
           (JObj
              [(''query'', subscribeDonations_query cid),
               (''schema'', JStr ''includeTypeAndGiverDetails'')])) #
      concat (map (subscribeDonations_handler new_Donation) evs))"

section \<open>Strings and truthiness\<close>

text \<open>\<^verbatim>\<open>s.includes(sub)\<close>: \<open>sub\<close> occurs in \<open>s\<close> as a contiguous substring.\<close>

fun starts_with :: "string \<Rightarrow> string \<Rightarrow> bool" where
  "starts_with s [] = True"
| "starts_with [] (p # ps) = False"
| "starts_with (x # xs) (p # ps) = (x = p \<and> starts_with xs ps)"

fun js_includes :: "string \<Rightarrow> string \<Rightarrow> bool" where
  "js_includes [] sub = (sub = [])"
| "js_includes (x # xs) sub = (starts_with (x # xs) sub \<or> js_includes xs sub)"

text \<open>
  A variable that holds \<^verbatim>\<open>undefined\<close> or a string: \<open>truthy\<close> is its value as a
  condition, \<open>interpolate\<close> its text inside a template literal.
\<close>

definition truthy :: "string option \<Rightarrow> bool" where
  "truthy v = (case v of None \<Rightarrow> False | Some s \<Rightarrow> s \<noteq> [])"

definition interpolate :: "string option \<Rightarrow> string" where
  "interpolate v = (case v of None \<Rightarrow> ''undefined'' | Some s \<Rightarrow> s)"

section \<open>Mutations: the objects involved\<close>

text \<open>
  The campaign handed to \<^verbatim>\<open>save\<close> and \<^verbatim>\<open>cancel\<close>: the fields the service reads and
  its method \<^verbatim>\<open>toFeathers(txHash)\<close>, whose body is in the model class; the argument is
  \<open>None\<close> when the call passes none.
\<close>

record campaign =
  campaign_id :: "string option"
  title :: string
  reviewerAddress :: string
  pluginAddress :: string
  toFeathers :: "string option \<Rightarrow> jv"

text \<open>What \<^verbatim>\<open>getNetwork()\<close> resolves to; the factory is named by a handle.\<close>

record network =
  lppCampaignFactory :: string
  etherscan :: string

text \<open>
  What reaches the service after a call has returned, in the order of arrival: the
  settlement of \<^verbatim>\<open>getNetwork()\<close> and \<^verbatim>\<open>getWeb3()\<close>, the \<^verbatim>\<open>transactionHash\<close> event and the
  settlement of the chain call, and the settlement of the store request (\<^verbatim>\<open>patch\<close> or
  \<^verbatim>\<open>create\<close>). The order of arrival is the environment's: the source puts no order
  between the answer of the store and the events of the chain call.

  The collaborators answer through these stimuli only: a call to one of them returns its
  promise without throwing, and the caller's callbacks return normally.
\<close>

datatype stimulus =
    Network_resolves network
  | Network_rejects js_error
  | Web3_resolves string
  | Web3_rejects js_error
  | Tx_hash string
  | Tx_mined
  | Tx_rejects js_error
  | Store_resolves jv
  | Store_rejects js_error

datatype 'a promise = Not_started | Pending | Fulfilled 'a | Rejected js_error

text \<open>
  The closure of one call of \<^verbatim>\<open>save\<close> or \<^verbatim>\<open>cancel\<close>: the two variables
  \<^verbatim>\<open>txHash\<close> and \<^verbatim>\<open>etherScanUrl\<close> (declared with \<^verbatim>\<open>let\<close>, so \<^verbatim>\<open>undefined\<close> at first),
  the promises in flight, whether the \<^verbatim>\<open>once('transactionHash', ...)\<close> listener is still
  registered, and the rejections no handler took.
\<close>

record svc_state =
  txHash :: "string option"
  etherScanUrl :: "string option"
  p_network :: "network promise"
  p_web3 :: "string promise"
  p_tx :: "unit promise"
  listener :: bool
  p_store :: "jv promise"
  unhandled :: "js_error list"

definition initial :: svc_state where
  "initial =
     \<lparr>txHash = None, etherScanUrl = None, p_network = Not_started, p_web3 = Not_started,
      p_tx = Not_started, listener = False, p_store = Not_started, unhandled = []\<rparr>"

text \<open>The template \<^verbatim>\<open>${etherScanUrl}tx/${txHash}\<close>.\<close>

definition explorer_link :: "svc_state \<Rightarrow> string" where
  "explorer_link st = interpolate (etherScanUrl st) @ ''tx/'' @ interpolate (txHash st)"

text \<open>The template \<^verbatim>\<open>${etherScanUrl}tx/${txHash} => ${JSON.stringify(err, null, 2)}\<close>.\<close>

definition fatal_detail :: "svc_state \<Rightarrow> js_error \<Rightarrow> string" where
  "fatal_detail st err = explorer_link st @ '' => '' @ json err"

text \<open>The condition \<^verbatim>\<open>err.message && err.message.includes('unknown transaction')\<close>.\<close>

definition unknown_transaction :: "js_error \<Rightarrow> bool" where
  "unknown_transaction err =
     (truthy (message err) \<and>
      (case message err of None \<Rightarrow> False | Some m \<Rightarrow> js_includes m ''unknown transaction''))"

section \<open>Mutations: save\<close>

definition save_message :: string where
  "save_message = ''Something went wrong with the transaction. Is your wallet unlocked?''"

text \<open>
  The synchronous part of \<^verbatim>\<open>save(campaign, from, afterCreate, afterMined)\<close>: with a
  truthy \<^verbatim>\<open>campaign.id\<close> the store is patched, otherwise the network is asked for.
\<close>

definition save_start :: "campaign \<Rightarrow> string \<Rightarrow> svc_state \<times> action list" where
  "save_start c sender =
     (if truthy (campaign_id c)
      then (initial\<lparr>p_store := Pending\<rparr>,
            [Store_patch ''campaigns'' (campaign_id c) (toFeathers c None)])
      else (initial\<lparr>p_network := Pending\<rparr>, [Call_getNetwork]))"

text \<open>
  The handlers \<^verbatim>\<open>save\<close> has registered, one equation per handler. A stimulus for which
  no promise of this call is pending (or whose listener is gone) finds no handler.
  \<^item> \<open>Network_resolves\<close>: the \<^verbatim>\<open>then\<close> of \<^verbatim>\<open>getNetwork()\<close>: sets \<^verbatim>\<open>etherScanUrl\<close> and calls
    the factory;
  \<^item> \<open>Network_rejects\<close>: the outer \<^verbatim>\<open>catch\<close>;
  \<^item> \<open>Tx_hash\<close>: the \<^verbatim>\<open>once('transactionHash', ...)\<close> listener: sets \<^verbatim>\<open>txHash\<close> and creates
    the store record;
  \<^item> \<open>Store_resolves\<close>: the \<^verbatim>\<open>then\<close> of the store request, \<^verbatim>\<open>patch\<close> in the update branch
    and \<^verbatim>\<open>create\<close> in the other;
  \<^item> \<open>Store_rejects\<close>: neither store request has a \<^verbatim>\<open>catch\<close>;
  \<^item> \<open>Tx_mined\<close>: the \<^verbatim>\<open>then\<close> of the chain call;
  \<^item> \<open>Tx_rejects\<close>: the inner \<^verbatim>\<open>catch\<close>.
\<close>

fun save_step ::
  "campaign \<Rightarrow> string \<Rightarrow> svc_state \<Rightarrow> stimulus \<Rightarrow> svc_state \<times> action list" where
  "save_step c sender st (Network_resolves n) =
     (if p_network st = Pending
      then (st\<lparr>p_network := Fulfilled n, etherScanUrl := Some (etherscan n),
               p_tx := Pending, listener := True\<rparr>,
            [Call_newCampaign (lppCampaignFactory n) (title c) '''' 0 (reviewerAddress c) sender])
      else (st, []))"
| "save_step c sender st (Network_rejects e) =
     (if p_network st = Pending
      then (st\<lparr>p_network := Rejected e\<rparr>,
            [ErrorPopup save_message (JStr (fatal_detail st e))])
      else (st, []))"
| "save_step c sender st (Tx_hash h) =
     (if listener st
      then (st\<lparr>listener := False, txHash := Some h, p_store := Pending\<rparr>,
            [Store_create ''campaigns'' (toFeathers c (Some h))])
      else (st, []))"
| "save_step c sender st (Store_resolves v) =
     (if p_store st = Pending
      then (st\<lparr>p_store := Fulfilled v\<rparr>,
            if truthy (campaign_id c) then [Call afterMined []]
            else [Call afterCreate [JStr (explorer_link st), v]])
      else (st, []))"
| "save_step c sender st (Store_rejects e) =
     (if p_store st = Pending
      then (st\<lparr>p_store := Rejected e, unhandled := unhandled st @ [e]\<rparr>, [])
      else (st, []))"
| "save_step c sender st Tx_mined =
     (if p_tx st = Pending
      then (st\<lparr>p_tx := Fulfilled ()\<rparr>, [Call afterMined [JStr (explorer_link st)]])
      else (st, []))"
| "save_step c sender st (Tx_rejects e) =
     (if p_tx st = Pending
      then (st\<lparr>p_tx := Rejected e\<rparr>,
            if truthy (txHash st) \<and> unknown_transaction e then []
            else [ErrorPopup save_message (JStr (fatal_detail st e))])
      else (st, []))"
| "save_step c sender st (Web3_resolves w) = (st, [])"
| "save_step c sender st (Web3_rejects e) = (st, [])"

section \<open>Mutations: cancel\<close>

definition cancel_message :: string where
  "cancel_message = ''Something went wrong with cancelling your campaign''"

definition cancel_patch_message :: string where
  "cancel_patch_message = ''Something went wrong with updating campaign''"

text \<open>
  The synchronous part of \<^verbatim>\<open>cancel(campaign, from, afterCreate, afterMined)\<close>: both
  accessors are called and their promises given to \<^verbatim>\<open>Promise.all\<close>.
\<close>

definition cancel_start :: "campaign \<Rightarrow> string \<Rightarrow> svc_state \<times> action list" where
  "cancel_start c sender =
     (initial\<lparr>p_network := Pending, p_web3 := Pending\<rparr>, [Call_getNetwork, Call_getWeb3])"

text \<open>
  The \<^verbatim>\<open>then\<close> of \<^verbatim>\<open>Promise.all\<close> runs once both promises are fulfilled: it builds the
  contract wrapper, sets \<^verbatim>\<open>etherScanUrl\<close> and calls \<^verbatim>\<open>cancelCampaign\<close>.
\<close>

definition cancel_all_then ::
  "campaign \<Rightarrow> string \<Rightarrow> svc_state \<Rightarrow> svc_state \<times> action list" where
  "cancel_all_then c sender st =
     (case (p_network st, p_web3 st) of
        (Fulfilled n, Fulfilled w) \<Rightarrow>
          (st\<lparr>etherScanUrl := Some (etherscan n), p_tx := Pending, listener := True\<rparr>,
           [Construct_LPPCampaign w (pluginAddress c), Call_cancelCampaign sender])
      | other \<Rightarrow> (st, []))"

text \<open>
  \<^verbatim>\<open>Promise.all\<close> rejects with the first rejection among its promises, which runs the
  outer \<^verbatim>\<open>catch\<close>; a later rejection of the other promise is dropped.
\<close>

definition is_rejected :: "'a promise \<Rightarrow> bool" where
  "is_rejected p = (case p of Rejected e \<Rightarrow> True | other \<Rightarrow> False)"

text \<open>
  The handlers \<^verbatim>\<open>cancel\<close> has registered. In the \<^verbatim>\<open>transactionHash\<close> listener the
  argument of \<^verbatim>\<open>.then(afterCreate(...))\<close> is a call, evaluated when the chain of the patch
  is built: \<^verbatim>\<open>afterCreate\<close> runs right after the patch request has been sent, and the
  \<^verbatim>\<open>then\<close> receives its result, not a handler. The \<^verbatim>\<open>catch\<close> of the patch reports a
  rejection through the error sink, with the rejection itself as the detail.
\<close>

fun cancel_step ::
  "campaign \<Rightarrow> string \<Rightarrow> svc_state \<Rightarrow> stimulus \<Rightarrow> svc_state \<times> action list" where
  "cancel_step c sender st (Network_resolves n) =
     (if p_network st = Pending
      then cancel_all_then c sender (st\<lparr>p_network := Fulfilled n\<rparr>)
      else (st, []))"
| "cancel_step c sender st (Web3_resolves w) =
     (if p_web3 st = Pending
      then cancel_all_then c sender (st\<lparr>p_web3 := Fulfilled w\<rparr>)
      else (st, []))"
| "cancel_step c sender st (Network_rejects e) =
     (if p_network st = Pending
      then (st\<lparr>p_network := Rejected e\<rparr>,
            if is_rejected (p_web3 st) then []
            else [ErrorPopup cancel_message (JStr (fatal_detail st e))])
      else (st, []))"
| "cancel_step c sender st (Web3_rejects e) =
     (if p_web3 st = Pending
      then (st\<lparr>p_web3 := Rejected e\<rparr>,
            if is_rejected (p_network st) then []
            else [ErrorPopup cancel_message (JStr (fatal_detail st e))])
      else (st, []))"
| "cancel_step c sender st (Tx_hash h) =
     (if listener st
      then (st\<lparr>listener := False, txHash := Some h, p_store := Pending\<rparr>,
            [Store_patch ''/campaigns'' (campaign_id c)
               (JObj [(''status'', JConst Campaign_CANCELED), (''mined'', JBool False)]),
             Call afterCreate [JStr (explorer_link (st\<lparr>txHash := Some h\<rparr>))]])
      else (st, []))"
| "cancel_step c sender st (Store_resolves v) =
     (if p_store st = Pending then (st\<lparr>p_store := Fulfilled v\<rparr>, []) else (st, []))"
| "cancel_step c sender st (Store_rejects e) =
     (if p_store st = Pending
      then (st\<lparr>p_store := Rejected e\<rparr>, [ErrorPopup cancel_patch_message (JErr e)])
      else (st, []))"
| "cancel_step c sender st Tx_mined =
     (if p_tx st = Pending
      then (st\<lparr>p_tx := Fulfilled ()\<rparr>, [Call afterMined [JStr (explorer_link st)]])
      else (st, []))"
| "cancel_step c sender st (Tx_rejects e) =
     (if p_tx st = Pending
      then (st\<lparr>p_tx := Rejected e\<rparr>,
            if truthy (txHash st) \<and> unknown_transaction e then []
            else [ErrorPopup cancel_message (JStr (fatal_detail st e))])
      else (st, []))"

section \<open>Runs\<close>

text \<open>
  A run is the synchronous part of a call followed by the handlers the stimuli trigger,
  one after the other (JavaScript runs one handler at a time). \<open>reactions\<close> pairs every
  stimulus with the actions its handler performed.
\<close>

record run =
  started :: "action list"
  reactions :: "(stimulus \<times> action list) list"
  final :: svc_state

fun exec ::
  "(svc_state \<Rightarrow> stimulus \<Rightarrow> svc_state \<times> action list) \<Rightarrow> svc_state \<Rightarrow> stimulus list \<Rightarrow>
   svc_state \<times> (stimulus \<times> action list) list" where
  "exec step st [] = (st, [])"
| "exec step st (s # ss) =
     (case step st s of
        (st', out) \<Rightarrow> (case exec step st' ss of (st'', rs) \<Rightarrow> (st'', (s, out) # rs)))"

definition save :: "campaign \<Rightarrow> string \<Rightarrow> stimulus list \<Rightarrow> run" where
  "save c sender sched =
     (case save_start c sender of
        (st0, a0) \<Rightarrow>
          (case exec (save_step c sender) st0 sched of
             (st, rs) \<Rightarrow> \<lparr>started = a0, reactions = rs, final = st\<rparr>))"

definition cancel :: "campaign \<Rightarrow> string \<Rightarrow> stimulus list \<Rightarrow> run" where
  "cancel c sender sched =
     (case cancel_start c sender of
        (st0, a0) \<Rightarrow>
          (case exec (cancel_step c sender) st0 sched of
             (st, rs) \<Rightarrow> \<lparr>started = a0, reactions = rs, final = st\<rparr>))"

text \<open>All actions of a run, in order.\<close>

definition actions :: "run \<Rightarrow> action list" where
  "actions r = started r @ concat (map snd (reactions r))"

section \<open>Scenario data\<close>

text \<open>
  Concrete collaborators for the scenarios below: the campaign of the specification's
  scenario (\<^verbatim>\<open>title: 'T'\<close>, \<^verbatim>\<open>reviewerAddress: '0xA'\<close>) with a given \<^verbatim>\<open>id\<close>, a network, and
  rejection values: the chain client's \<^verbatim>\<open>unknown transaction\<close>, a timeout, a message that
  shares only the word \<^verbatim>\<open>unknown\<close>, and an exception of a constructor.
\<close>

definition scenario_campaign :: "string option \<Rightarrow> campaign" where
  "scenario_campaign i =
     \<lparr>campaign_id = i, title = ''T'', reviewerAddress = ''0xA'', pluginAddress = ''0xP'',
      toFeathers =
        (\<lambda>h. JObj ((''title'', JStr ''T'') #
                    (case h of None \<Rightarrow> [] | Some x \<Rightarrow> [(''txHash'', JStr x)])))\<rparr>"

definition scenario_network :: network where
  "scenario_network = \<lparr>lppCampaignFactory = ''factory'', etherscan = ''https://etherscan.io/''\<rparr>"


definition scenario_failure :: js_error where
  "scenario_failure = \<lparr>message = Some ''timeout'', json = ''{}''\<rparr>"


definition scenario_type_error :: js_error where
  "scenario_type_error =
     \<lparr>message = Some ''Cannot destructure property of undefined'', json = ''{}''\<rparr>"

section \<open>Substrings\<close>



section \<open>Runs\<close>

text \<open>A run over two schedules in a row is the run over the first continued by the second.\<close>

lemma exec_append:
  "exec step st (xs @ ys) =
     (case exec step st xs of
        (st', rs) \<Rightarrow> (case exec step st' ys of (st'', rs') \<Rightarrow> (st'', rs @ rs')))"
  by (induction xs arbitrary: st) (auto split: prod.splits)



text \<open>
  With no promise pending and no listener registered, \<^verbatim>\<open>save\<close> has no handler left:
  every stimulus leaves the state as it is and causes no action.
\<close>

lemma save_step_inert:
  assumes "p_network st \<noteq> Pending" "p_tx st \<noteq> Pending" "\<not> listener st" "p_store st \<noteq> Pending"
  shows "save_step c sender st s = (st, [])"
  using assms by (cases s) auto

lemma save_exec_inert:
  assumes "p_network st \<noteq> Pending" "p_tx st \<noteq> Pending" "\<not> listener st" "p_store st \<noteq> Pending"
  shows "exec (save_step c sender) st ss = (st, map (\<lambda>s. (s, [])) ss)"
  using assms by (induction ss) (auto simp: save_step_inert)

text \<open>
  In the update branch the network is never asked for, so no handler of the create branch
  is ever registered, and the only action a stimulus can cause is \<^verbatim>\<open>afterMined()\<close>.
\<close>

lemma save_step_update:
  assumes "truthy (campaign_id c)"
    and "p_network st = Not_started" "p_tx st = Not_started" "\<not> listener st"
    and "save_step c sender st s = (st', out)"
  shows "p_network st' = Not_started \<and> p_tx st' = Not_started \<and> \<not> listener st' \<and>
         set out \<subseteq> {Call afterMined []}"
  using assms by (cases s) (auto split: if_splits)

lemma save_exec_update:
  assumes "truthy (campaign_id c)"
    and "p_network st = Not_started" "p_tx st = Not_started" "\<not> listener st"
    and "exec (save_step c sender) st ss = (st', rs)"
  shows "set (concat (map snd rs)) \<subseteq> {Call afterMined []}"
  using assms
proof (induction ss arbitrary: st st' rs)
  case Nil
  then show ?case by simp
next
  case (Cons s ss)
  obtain st1 out where step: "save_step c sender st s = (st1, out)"
    by (cases "save_step c sender st s")
  obtain st2 rs2 where rest: "exec (save_step c sender) st1 ss = (st2, rs2)"
    by (cases "exec (save_step c sender) st1 ss")
  from Cons.prems(5) step rest have rs: "rs = (s, out) # rs2" by simp
  from save_step_update [OF Cons.prems(1-4) step]
  have inv: "p_network st1 = Not_started" "p_tx st1 = Not_started" "\<not> listener st1"
    and out: "set out \<subseteq> {Call afterMined []}" by auto
  from Cons.IH [OF Cons.prems(1) inv rest]
  have "set (concat (map snd rs2)) \<subseteq> {Call afterMined []}" .
  with out rs show ?case by auto
qed

lemma silent_reactions: "concat (map snd (map (\<lambda>s. (s, [])) ss)) = []"
  by (induction ss) simp_all

section \<open>save: the update branch\<close>

text \<open>
  Claim C2. For every campaign whose \<^verbatim>\<open>id\<close> is set (truthy, as \<^verbatim>\<open>if (campaign.id)\<close> tests
  it), \<^verbatim>\<open>save\<close> starts by patching the store record \<^verbatim>\<open>campaign.id\<close> with
  \<^verbatim>\<open>campaign.toFeathers()\<close> and does nothing else; whatever arrives afterwards, the only
  actions of the whole run are that patch and \<^verbatim>\<open>afterMined()\<close>, so there is no network
  resolution and no factory call; and when the patch resolves, \<^verbatim>\<open>afterMined\<close> is invoked
  with no arguments, once, and nothing happens after it.
\<close>

theorem save_update_patches_only:
  assumes "truthy (campaign_id c)"
  shows "started (save c sender sched) =
           [Store_patch ''campaigns'' (campaign_id c) (toFeathers c None)]
     \<and> set (actions (save c sender sched)) \<subseteq>
         {Store_patch ''campaigns'' (campaign_id c) (toFeathers c None), Call afterMined []}
     \<and> reactions (save c sender (Store_resolves v # rest)) =
         (Store_resolves v, [Call afterMined []]) # map (\<lambda>s. (s, [])) rest"
proof -
  let ?st0 = "initial\<lparr>p_store := Pending\<rparr>"
  let ?patch = "Store_patch ''campaigns'' (campaign_id c) (toFeathers c None)"
  have start: "save_start c sender = (?st0, [?patch])"
    using assms by (simp add: save_start_def)
  have a: "started (save c sender sched) = [?patch]"
    by (simp add: save_def start split: prod.splits)
  obtain st' rs where ex: "exec (save_step c sender) ?st0 sched = (st', rs)"
    by (cases "exec (save_step c sender) ?st0 sched")
  have "set (concat (map snd rs)) \<subseteq> {Call afterMined []}"
    by (rule save_exec_update [OF assms _ _ _ ex]) (simp_all add: initial_def)
  then have b: "set (actions (save c sender sched)) \<subseteq> {?patch, Call afterMined []}"
    by (auto simp: actions_def save_def start ex)
  have "exec (save_step c sender) (?st0\<lparr>p_store := Fulfilled v\<rparr>) rest =
          (?st0\<lparr>p_store := Fulfilled v\<rparr>, map (\<lambda>s. (s, [])) rest)"
    by (rule save_exec_inert) (simp_all add: initial_def)
  then have c: "reactions (save c sender (Store_resolves v # rest)) =
         (Store_resolves v, [Call afterMined []]) # map (\<lambda>s. (s, [])) rest"
    using assms by (simp add: save_def start initial_def)
  from a b c show ?thesis by blast
qed

text \<open>The scenario campaign with id \<^verbatim>\<open>c1\<close>: the patch, then \<^verbatim>\<open>afterMined()\<close>.\<close>

theorem save_update_patches_only_witness:
  "truthy (campaign_id (scenario_campaign (Some ''c1'')))
   \<and> started (save (scenario_campaign (Some ''c1'')) ''0xFrom'' [Tx_mined]) =
       [Store_patch ''campaigns'' (Some ''c1'') (JObj [(''title'', JStr ''T'')])]
   \<and> set (actions (save (scenario_campaign (Some ''c1'')) ''0xFrom'' [Tx_mined])) \<subseteq>
       {Store_patch ''campaigns'' (Some ''c1'') (JObj [(''title'', JStr ''T'')]), Call afterMined []}
   \<and> reactions (save (scenario_campaign (Some ''c1'')) ''0xFrom''
         [Store_resolves (JStr ''ok''), Tx_mined]) =
       [(Store_resolves (JStr ''ok''), [Call afterMined []]), (Tx_mined, [])]"
proof -
  have h: "truthy (campaign_id (scenario_campaign (Some ''c1'')))"
    by (simp add: scenario_campaign_def truthy_def)
  show ?thesis
    using h save_update_patches_only [OF h, of "''0xFrom''" "[Tx_mined]" "JStr ''ok''" "[Tx_mined]"]
    by (simp add: scenario_campaign_def)
qed

text \<open>
  Claim C10. In the update branch of \<^verbatim>\<open>save\<close> (campaign with a truthy \<^verbatim>\<open>id\<close>), when the
  store patch rejects, the patch is the only action of the run, whatever arrives later:
  \<^verbatim>\<open>afterMined\<close> is never invoked and nothing reaches the error sink or the caller. The
  rejection is left unhandled, since the chain \<^verbatim>\<open>patch(...).then(...)\<close> has no
  \<^verbatim>\<open>catch\<close>.
\<close>

theorem save_update_patch_rejection_unhandled:
  assumes "truthy (campaign_id c)"
  shows "actions (save c sender (Store_rejects e # rest)) =
           [Store_patch ''campaigns'' (campaign_id c) (toFeathers c None)]
     \<and> reactions (save c sender (Store_rejects e # rest)) =
           (Store_rejects e, []) # map (\<lambda>s. (s, [])) rest
     \<and> unhandled (final (save c sender (Store_rejects e # rest))) = [e]"
proof -
  let ?st0 = "initial\<lparr>p_store := Pending\<rparr>"
  let ?st1 = "?st0\<lparr>p_store := Rejected e, unhandled := unhandled ?st0 @ [e]\<rparr>"
  let ?patch = "Store_patch ''campaigns'' (campaign_id c) (toFeathers c None)"
  have start: "save_start c sender = (?st0, [?patch])"
    using assms by (simp add: save_start_def)
  have "exec (save_step c sender) ?st1 rest = (?st1, map (\<lambda>s. (s, [])) rest)"
    by (rule save_exec_inert) (simp_all add: initial_def)
  then have run: "save c sender (Store_rejects e # rest) =
      \<lparr>started = [?patch],
       reactions = (Store_rejects e, []) # map (\<lambda>s. (s, [])) rest, final = ?st1\<rparr>"
    by (simp add: save_def start initial_def)
  show ?thesis by (simp add: run actions_def initial_def silent_reactions)
qed

text \<open>
  The scenario campaign with id \<^verbatim>\<open>c1\<close> and a patch that rejects: one action, one
  unhandled rejection.
\<close>

theorem save_update_patch_rejection_unhandled_witness:
  "truthy (campaign_id (scenario_campaign (Some ''c1'')))
   \<and> actions (save (scenario_campaign (Some ''c1'')) ''0xFrom''
         [Store_rejects scenario_failure, Store_resolves (JStr ''late''), Tx_mined]) =
       [Store_patch ''campaigns'' (Some ''c1'') (JObj [(''title'', JStr ''T'')])]
   \<and> unhandled (final (save (scenario_campaign (Some ''c1'')) ''0xFrom''
         [Store_rejects scenario_failure, Store_resolves (JStr ''late''), Tx_mined])) =
       [scenario_failure]"
proof -
  have h: "truthy (campaign_id (scenario_campaign (Some ''c1'')))"
    by (simp add: scenario_campaign_def truthy_def)
  show ?thesis
    using h save_update_patch_rejection_unhandled
      [OF h, of "''0xFrom''" scenario_failure "[Store_resolves (JStr ''late''), Tx_mined]"]
    by (simp add: scenario_campaign_def)
qed

section \<open>save: the create branch\<close>

text \<open>
  Claim C4, as stated, asks that \<^verbatim>\<open>afterCreate\<close> is called before \<^verbatim>\<open>afterMined\<close> whenever
  the factory call emits a hash and then mines. The two callbacks hang on two independent
  promises: \<^verbatim>\<open>afterCreate\<close> on the store's \<^verbatim>\<open>create\<close>, \<^verbatim>\<open>afterMined\<close> on the chain call.
  When the transaction is mined before the store has answered, \<^verbatim>\<open>afterMined\<close> runs first.
\<close>

theorem save_create_mined_before_store_answers:
  "actions (save (scenario_campaign None) ''0xFrom''
      [Network_resolves scenario_network, Tx_hash ''0xH'', Tx_mined,
       Store_resolves (JStr ''newId'')]) =
     [Call_getNetwork,
      Call_newCampaign ''factory'' ''T'' '''' 0 ''0xA'' ''0xFrom'',
      Store_create ''campaigns'' (JObj [(''title'', JStr ''T''), (''txHash'', JStr ''0xH'')]),
      Call afterMined [JStr ''https://etherscan.io/tx/0xH''],
      Call afterCreate [JStr ''https://etherscan.io/tx/0xH'', JStr ''newId'']]"
  by (simp add: actions_def save_def save_start_def scenario_campaign_def scenario_network_def
      truthy_def initial_def explorer_link_def interpolate_def)

text \<open>
  Claim C4, amended. For a campaign without a truthy \<^verbatim>\<open>id\<close>, when the network resolves,
  the factory call emits transaction hash \<open>h\<close> and then mines, and the store's \<^verbatim>\<open>create\<close>
  resolves with \<open>v\<close>: \<^verbatim>\<open>save\<close> invokes the factory as
  \<^verbatim>\<open>newCampaign(title, '', 0, reviewerAddress, { from })\<close>; on the hash it creates the store
  record \<^verbatim>\<open>campaign.toFeathers(h)\<close>; \<^verbatim>\<open>afterCreate\<close> is called exactly once, with the explorer
  link \<^verbatim>\<open><etherscan>tx/h\<close> and \<open>v\<close>, when the \<^verbatim>\<open>create\<close> resolves; \<^verbatim>\<open>afterMined\<close> is called
  exactly once, with the same link, when the transaction is mined. \<^verbatim>\<open>afterCreate\<close> comes
  before \<^verbatim>\<open>afterMined\<close> when the store answers before the transaction is mined (first
  run), and after it otherwise (second run).
\<close>

theorem save_create_sequence:
  assumes "\<not> truthy (campaign_id c)"
  shows "save c sender [Network_resolves n, Tx_hash h, Store_resolves v, Tx_mined] =
     \<lparr>started = [Call_getNetwork],
      reactions =
        [(Network_resolves n,
            [Call_newCampaign (lppCampaignFactory n) (title c) '''' 0 (reviewerAddress c) sender]),
         (Tx_hash h, [Store_create ''campaigns'' (toFeathers c (Some h))]),
         (Store_resolves v, [Call afterCreate [JStr (etherscan n @ ''tx/'' @ h), v]]),
         (Tx_mined, [Call afterMined [JStr (etherscan n @ ''tx/'' @ h)]])],
      final =
        \<lparr>txHash = Some h, etherScanUrl = Some (etherscan n), p_network = Fulfilled n,
         p_web3 = Not_started, p_tx = Fulfilled (), listener = False, p_store = Fulfilled v,
         unhandled = []\<rparr>\<rparr>
   \<and> reactions (save c sender [Network_resolves n, Tx_hash h, Tx_mined, Store_resolves v]) =
        [(Network_resolves n,
            [Call_newCampaign (lppCampaignFactory n) (title c) '''' 0 (reviewerAddress c) sender]),
         (Tx_hash h, [Store_create ''campaigns'' (toFeathers c (Some h))]),
         (Tx_mined, [Call afterMined [JStr (etherscan n @ ''tx/'' @ h)]]),
         (Store_resolves v, [Call afterCreate [JStr (etherscan n @ ''tx/'' @ h), v]])]"
  using assms
  by (simp add: save_def save_start_def initial_def explorer_link_def interpolate_def)

text \<open>The scenario of the specification: hash \<^verbatim>\<open>0xH\<close>, new id, then mined.\<close>

theorem save_create_sequence_witness:
  "\<not> truthy (campaign_id (scenario_campaign None))
   \<and> actions (save (scenario_campaign None) ''0xFrom''
        [Network_resolves scenario_network, Tx_hash ''0xH'', Store_resolves (JStr ''newId''),
         Tx_mined]) =
     [Call_getNetwork,
      Call_newCampaign ''factory'' ''T'' '''' 0 ''0xA'' ''0xFrom'',
      Store_create ''campaigns'' (JObj [(''title'', JStr ''T''), (''txHash'', JStr ''0xH'')]),
      Call afterCreate [JStr ''https://etherscan.io/tx/0xH'', JStr ''newId''],
      Call afterMined [JStr ''https://etherscan.io/tx/0xH'']]"
proof -
  have h: "\<not> truthy (campaign_id (scenario_campaign None))"
    by (simp add: scenario_campaign_def truthy_def)
  show ?thesis
    using h save_create_sequence
      [OF h, of "''0xFrom''" scenario_network "''0xH''" "JStr ''newId''"]
    by (simp add: actions_def scenario_campaign_def scenario_network_def)
qed

section \<open>cancel\<close>

text \<open>
  Claim C1 asks that in \<^verbatim>\<open>cancel\<close> the store patch (status Canceled, \<^verbatim>\<open>mined: false\<close>)
  completes before \<^verbatim>\<open>afterCreate\<close> is invoked with the explorer link. The source writes
  \<^verbatim>\<open>.then(afterCreate(...))\<close>: the callback runs inside the \<^verbatim>\<open>transactionHash\<close> listener,
  right after the patch request has been sent and before the store has answered. In the
  run below the patch is rejected afterwards, and \<^verbatim>\<open>afterCreate\<close> has been called all the
  same.
\<close>

theorem cancel_afterCreate_before_patch_settles:
  "cancel c sender [Network_resolves n, Web3_resolves w, Tx_hash h, Store_rejects e] =
     \<lparr>started = [Call_getNetwork, Call_getWeb3],
      reactions =
        [(Network_resolves n, []),
         (Web3_resolves w, [Construct_LPPCampaign w (pluginAddress c), Call_cancelCampaign sender]),
         (Tx_hash h,
            [Store_patch ''/campaigns'' (campaign_id c)
               (JObj [(''status'', JConst Campaign_CANCELED), (''mined'', JBool False)]),
             Call afterCreate [JStr (etherscan n @ ''tx/'' @ h)]]),
         (Store_rejects e, [ErrorPopup cancel_patch_message (JErr e)])],
      final =
        \<lparr>txHash = Some h, etherScanUrl = Some (etherscan n), p_network = Fulfilled n,
         p_web3 = Fulfilled w, p_tx = Pending, listener = False, p_store = Rejected e,
         unhandled = []\<rparr>\<rparr>"
  by (simp add: cancel_def cancel_start_def cancel_all_then_def initial_def explorer_link_def
      interpolate_def)

section \<open>Read operations\<close>

text \<open>
  Claim C5. For every \<^verbatim>\<open>$limit\<close> and \<^verbatim>\<open>$skip\<close>, \<^verbatim>\<open>getCampaigns\<close> sends one \<^verbatim>\<open>find\<close> to the
  \<^verbatim>\<open>campaigns\<close> service whose query has exactly the fields \<^verbatim>\<open>projectId: { $gt: 0 }\<close>,
  \<^verbatim>\<open>status: Campaign.ACTIVE\<close>, \<^verbatim>\<open>$limit\<close>, \<^verbatim>\<open>$skip\<close> and \<^verbatim>\<open>$sort: { createdAt: -1 }\<close>, with
  \<^verbatim>\<open>$limit\<close> 100 and \<^verbatim>\<open>$skip\<close> 0 when the argument is missing. When the \<^verbatim>\<open>find\<close> resolves,
  \<^verbatim>\<open>onSuccess\<close> is invoked with the records mapped through \<^verbatim>\<open>new Campaign\<close>, in the order
  received, and the total; when it rejects, \<^verbatim>\<open>onError\<close> is invoked with the failure.
\<close>

theorem getCampaigns_request_and_delivery:
  "getCampaigns new_Campaign limit skip outcome =
     [Store_find ''campaigns'' (JObj [(''query'', getCampaigns_query limit skip)]),
      (case outcome of
         Find_resolves resp \<Rightarrow>
           Call onSuccess [JArr (map new_Campaign (data resp)), JNum (total_count resp)]
       | Find_rejects e \<Rightarrow> Call onError [JErr e])]
   \<and> obj_keys (getCampaigns_query limit skip) =
       [''projectId'', ''status'', ''$limit'', ''$skip'', ''$sort'']
   \<and> obj_get (getCampaigns_query limit skip) ''projectId'' = Some (JObj [(''$gt'', JNum 0)])
   \<and> obj_get (getCampaigns_query limit skip) ''status'' = Some (JConst Campaign_ACTIVE)
   \<and> obj_get (getCampaigns_query limit skip) ''$sort'' = Some (JObj [(''createdAt'', JNum (- 1))])
   \<and> obj_get (getCampaigns_query limit skip) ''$limit'' =
       Some (case limit of None \<Rightarrow> JNum 100 | Some l \<Rightarrow> l)
   \<and> obj_get (getCampaigns_query limit skip) ''$skip'' =
       Some (case skip of None \<Rightarrow> JNum 0 | Some s \<Rightarrow> s)"
  by (simp add: getCampaigns_def getCampaigns_query_def default_param_def
      split: find_outcome.split)

text \<open>
  Claim C6. For every campaign id, \<^verbatim>\<open>$limit\<close> and \<^verbatim>\<open>$skip\<close>, \<^verbatim>\<open>getMilestones\<close> sends one
  \<^verbatim>\<open>find\<close> to the \<^verbatim>\<open>milestones\<close> service whose query has exactly the fields
  \<^verbatim>\<open>campaignId\<close> (the given id), \<^verbatim>\<open>status: { $nin: [CANCELED, PROPOSED, REJECTED, PENDING] }\<close>,
  \<^verbatim>\<open>$sort: { createdAt: -1 }\<close>, \<^verbatim>\<open>$limit\<close> and \<^verbatim>\<open>$skip\<close> (defaults 100 and 0). When the
  \<^verbatim>\<open>find\<close> resolves, \<^verbatim>\<open>onSuccess\<close> receives the records as they came, not passed through
  any constructor, and the total; when it rejects, \<^verbatim>\<open>onError\<close> receives the failure.
\<close>

theorem getMilestones_request_and_delivery:
  "getMilestones cid limit skip outcome =
     [Store_find ''milestones'' (JObj [(''query'', getMilestones_query cid limit skip)]),
      (case outcome of
         Find_resolves resp \<Rightarrow> Call onSuccess [JArr (data resp), JNum (total_count resp)]
       | Find_rejects e \<Rightarrow> Call onError [JErr e])]
   \<and> obj_keys (getMilestones_query cid limit skip) =
       [''campaignId'', ''status'', ''$sort'', ''$limit'', ''$skip'']
   \<and> obj_get (getMilestones_query cid limit skip) ''campaignId'' = Some cid
   \<and> obj_get (getMilestones_query cid limit skip) ''status'' =
       Some (JObj [(''$nin'',
         JArr [JConst Milestone_CANCELED, JConst Milestone_PROPOSED,
               JConst Milestone_REJECTED, JConst Milestone_PENDING])])
   \<and> obj_get (getMilestones_query cid limit skip) ''$sort'' = Some (JObj [(''createdAt'', JNum (- 1))])
   \<and> obj_get (getMilestones_query cid limit skip) ''$limit'' =
       Some (case limit of None \<Rightarrow> JNum 100 | Some l \<Rightarrow> l)
   \<and> obj_get (getMilestones_query cid limit skip) ''$skip'' =
       Some (case skip of None \<Rightarrow> JNum 0 | Some s \<Rightarrow> s)"
  by (simp add: getMilestones_def getMilestones_query_def default_param_def
      split: find_outcome.split)

text \<open>
  Claim C7. For every campaign id, \<^verbatim>\<open>subscribeDonations\<close> opens one subscription on the
  \<^verbatim>\<open>donations\<close> service, with list strategy \<^verbatim>\<open>always\<close> and a query that has exactly the
  fields \<^verbatim>\<open>campaignId\<close> (the given id), \<^verbatim>\<open>isReturn: false\<close> and \<^verbatim>\<open>$sort: { createdAt: -1 }\<close>,
  and returns the handle \<^verbatim>\<open>subscribe\<close> gave it. After any history of events, an emission
  makes it invoke \<^verbatim>\<open>onSuccess\<close> with all records of that emission mapped through
  \<^verbatim>\<open>new Donation\<close>, and a delivery failure makes it invoke \<^verbatim>\<open>onError\<close> with the failure.
\<close>

theorem subscribeDonations_request_and_delivery:
  "fst (subscribeDonations new_Donation cid subscription evs) = subscription
   \<and> snd (subscribeDonations new_Donation cid subscription []) =
       [Store_watch_find ''donations'' (JObj [(''listStrategy'', JStr ''always'')])
          (ParamsForServer
             (JObj [(''query'', subscribeDonations_query cid),
                    (''schema'', JStr ''includeTypeAndGiverDetails'')]))]
   \<and> obj_keys (subscribeDonations_query cid) = [''campaignId'', ''isReturn'', ''$sort'']
   \<and> obj_get (subscribeDonations_query cid) ''campaignId'' = Some cid
   \<and> obj_get (subscribeDonations_query cid) ''isReturn'' = Some (JBool False)
   \<and> obj_get (subscribeDonations_query cid) ''$sort'' = Some (JObj [(''createdAt'', JNum (- 1))])
   \<and> snd (subscribeDonations new_Donation cid subscription (evs @ [Emission resp])) =
       snd (subscribeDonations new_Donation cid subscription evs) @
         [Call onSuccess [JArr (map new_Donation (data resp))]]
   \<and> snd (subscribeDonations new_Donation cid subscription (evs @ [Delivery_failure e])) =
       snd (subscribeDonations new_Donation cid subscription evs) @ [Call onError [JErr e]]"
  by (simp add: subscribeDonations_def subscribeDonations_query_def
      subscribeDonations_handler_def)

text \<open>
  Claim C8. For every id, \<^verbatim>\<open>get\<close> asks the \<^verbatim>\<open>campaigns\<close> service for \<^verbatim>\<open>{ _id: id }\<close>. When
  the \<^verbatim>\<open>find\<close> resolves with at least one record, the promise resolves with
  \<^verbatim>\<open>new Campaign\<close> of the first record; that record carries the requested id whenever
  the store's answer holds only records matching the query. When the \<^verbatim>\<open>find\<close> rejects,
  the promise rejects with the same failure, as it came.
\<close>

theorem get_first_record_or_failure:
  "(data resp = r # rs \<longrightarrow>
      get new_Campaign new_Campaign_undefined cid (Find_resolves resp) =
        [Store_find ''campaigns'' (JObj [(''query'', JObj [(''_id'', cid)])]),
         Call resolve [new_Campaign r]]
      \<and> (list_all (\<lambda>x. obj_get x ''_id'' = Some cid) (data resp) \<longrightarrow>
           obj_get r ''_id'' = Some cid))
   \<and> get new_Campaign new_Campaign_undefined cid (Find_rejects e) =
        [Store_find ''campaigns'' (JObj [(''query'', JObj [(''_id'', cid)])]),
         Call reject [JErr e]]"
  by (simp add: get_def get_query_def)

text \<open>A store that answers with the one record of id \<^verbatim>\<open>c1\<close>.\<close>

theorem get_first_record_or_failure_witness:
  "data \<lparr>data = [JObj [(''_id'', JStr ''c1''), (''title'', JStr ''T'')]], total_count = 1\<rparr> =
     JObj [(''_id'', JStr ''c1''), (''title'', JStr ''T'')] # []
   \<and> list_all (\<lambda>x. obj_get x ''_id'' = Some (JStr ''c1''))
       (data \<lparr>data = [JObj [(''_id'', JStr ''c1''), (''title'', JStr ''T'')]], total_count = 1\<rparr>)
   \<and> get (\<lambda>r. JObj [(''campaign'', r)]) (Inl scenario_failure) (JStr ''c1'')
       (Find_resolves
          \<lparr>data = [JObj [(''_id'', JStr ''c1''), (''title'', JStr ''T'')]], total_count = 1\<rparr>) =
       [Store_find ''campaigns'' (JObj [(''query'', JObj [(''_id'', JStr ''c1'')])]),
        Call resolve [JObj [(''campaign'', JObj [(''_id'', JStr ''c1''), (''title'', JStr ''T'')])]]]
   \<and> obj_get (JObj [(''_id'', JStr ''c1''), (''title'', JStr ''T'')]) ''_id'' = Some (JStr ''c1'')"
  using get_first_record_or_failure
    [where resp = "\<lparr>data = [JObj [(''_id'', JStr ''c1''), (''title'', JStr ''T'')]], total_count = 1\<rparr>"
       and r = "JObj [(''_id'', JStr ''c1''), (''title'', JStr ''T'')]" and rs = "[]"
       and new_Campaign = "\<lambda>r. JObj [(''campaign'', r)]"
       and new_Campaign_undefined = "Inl scenario_failure" and cid = "JStr ''c1''"]
  by simp

text \<open>
  Claim C9, as stated, says that on an empty result \<^verbatim>\<open>get\<close> still resolves and never
  rejects. \<^verbatim>\<open>get\<close> has no branch for an empty result, but it builds
  \<^verbatim>\<open>new Campaign(resp.data[0])\<close> inside the \<^verbatim>\<open>then\<close> handler, and the chain ends in
  \<^verbatim>\<open>.catch(reject)\<close>: with a constructor that throws on \<^verbatim>\<open>undefined\<close> the promise is
  rejected with the exception.
\<close>

theorem get_empty_result_constructor_throws:
  "get (\<lambda>r. JObj [(''campaign'', r)]) (Inl scenario_type_error) (JStr ''c1'')
     (Find_resolves \<lparr>data = [], total_count = 0\<rparr>) =
     [Store_find ''campaigns'' (JObj [(''query'', JObj [(''_id'', JStr ''c1'')])]),
      Call reject [JErr scenario_type_error]]"
  by (simp add: get_def get_query_def)

text \<open>
  Claim C9, amended. For every id, when the \<^verbatim>\<open>find\<close> resolves with an empty \<^verbatim>\<open>data\<close>
  list, \<^verbatim>\<open>get\<close> has no rejection of its own (no NotFound, no empty-result branch): after
  the \<^verbatim>\<open>find\<close> it does exactly one thing, and which one is decided by
  \<^verbatim>\<open>new Campaign(undefined)\<close> alone. When the constructor returns an object \<open>c\<close>, the
  promise resolves with \<open>c\<close>; when it throws \<open>x\<close>, the promise rejects with \<open>x\<close>; and
  \<^verbatim>\<open>reject\<close> is called in no other case and with no other value.
\<close>

theorem get_empty_result_follows_constructor:
  assumes "data resp = []"
  shows "(new_Campaign_undefined = Inr c \<longrightarrow>
            get new_Campaign new_Campaign_undefined cid (Find_resolves resp) =
              [Store_find ''campaigns'' (JObj [(''query'', JObj [(''_id'', cid)])]),
               Call resolve [c]])
       \<and> (new_Campaign_undefined = Inl x \<longrightarrow>
            get new_Campaign new_Campaign_undefined cid (Find_resolves resp) =
              [Store_find ''campaigns'' (JObj [(''query'', JObj [(''_id'', cid)])]),
               Call reject [JErr x]])
       \<and> length (get new_Campaign new_Campaign_undefined cid (Find_resolves resp)) = 2
       \<and> (\<forall>args. Call reject args \<in> set (get new_Campaign new_Campaign_undefined cid (Find_resolves resp))
             \<longleftrightarrow> (\<exists>y. new_Campaign_undefined = Inl y \<and> args = [JErr y]))"
  using assms by (auto simp: get_def get_query_def split: sum.splits)

text \<open>
  An empty answer, once with a constructor that returns the empty object on
  \<^verbatim>\<open>undefined\<close> and once with one that throws.
\<close>

theorem get_empty_result_follows_constructor_witness:
  "data \<lparr>data = [], total_count = 0\<rparr> = []
   \<and> get (\<lambda>r. JObj [(''campaign'', r)]) (Inr (JObj [])) (JStr ''c1'')
       (Find_resolves \<lparr>data = [], total_count = 0\<rparr>) =
       [Store_find ''campaigns'' (JObj [(''query'', JObj [(''_id'', JStr ''c1'')])]),
        Call resolve [JObj []]]
   \<and> get (\<lambda>r. JObj [(''campaign'', r)]) (Inl scenario_type_error) (JStr ''c1'')
       (Find_resolves \<lparr>data = [], total_count = 0\<rparr>) =
       [Store_find ''campaigns'' (JObj [(''query'', JObj [(''_id'', JStr ''c1'')])]),
        Call reject [JErr scenario_type_error]]"
proof -
  have d: "data \<lparr>data = [], total_count = 0\<rparr> = []" by simp
  from get_empty_result_follows_constructor
    [OF d, where new_Campaign_undefined = "Inr (JObj [])" and c = "JObj []"
       and new_Campaign = "\<lambda>r. JObj [(''campaign'', r)]" and cid = "JStr ''c1''"]
  have a: "get (\<lambda>r. JObj [(''campaign'', r)]) (Inr (JObj [])) (JStr ''c1'')
       (Find_resolves \<lparr>data = [], total_count = 0\<rparr>) =
       [Store_find ''campaigns'' (JObj [(''query'', JObj [(''_id'', JStr ''c1'')])]),
        Call resolve [JObj []]]"
    by simp
  from get_empty_result_follows_constructor
    [OF d, where new_Campaign_undefined = "Inl scenario_type_error" and x = scenario_type_error
       and new_Campaign = "\<lambda>r. JObj [(''campaign'', r)]" and cid = "JStr ''c1''"]
  have b: "get (\<lambda>r. JObj [(''campaign'', r)]) (Inl scenario_type_error) (JStr ''c1'')
       (Find_resolves \<lparr>data = [], total_count = 0\<rparr>) =
       [Store_find ''campaigns'' (JObj [(''query'', JObj [(''_id'', JStr ''c1'')])]),
        Call reject [JErr scenario_type_error]]"
    by simp
  from d a b show ?thesis by blast
qed

section \<open>The variable txHash\<close>

lemma save_step_txHash:
  assumes "save_step c sender st s = (st', out)"
  shows "txHash st' = txHash st \<or> (\<exists>h. s = Tx_hash h \<and> txHash st' = Some h)"
  using assms by (cases s) (auto split: if_splits)

lemma cancel_step_txHash:
  assumes "cancel_step c sender st s = (st', out)"
  shows "txHash st' = txHash st \<or> (\<exists>h. s = Tx_hash h \<and> txHash st' = Some h)"
  using assms by (cases s) (auto simp: cancel_all_then_def split: if_splits promise.splits)

lemma exec_txHash:
  assumes step: "\<And>st s st' out. f st s = (st', out) \<Longrightarrow>
            txHash st' = txHash st \<or> (\<exists>h. s = Tx_hash h \<and> txHash st' = Some h)"
    and "exec f st ss = (st', rs)"
  shows "txHash st' = txHash st \<or> (\<exists>h. Tx_hash h \<in> set ss \<and> txHash st' = Some h)"
  using assms(2)
proof (induction ss arbitrary: st st' rs)
  case Nil
  then show ?case by simp
next
  case (Cons s ss)
  obtain st1 out where one: "f st s = (st1, out)" by (cases "f st s")
  obtain st2 rs2 where rest: "exec f st1 ss = (st2, rs2)" by (cases "exec f st1 ss")
  from Cons.prems one rest have st': "st' = st2" by simp
  from Cons.IH [OF rest]
  consider "txHash st2 = txHash st1" | h where "Tx_hash h \<in> set ss" "txHash st2 = Some h"
    by blast
  then show ?case
  proof cases
    case 1
    with step [OF one] st' show ?thesis by auto
  next
    case 2
    with st' show ?thesis by auto
  qed
qed

text \<open>
  \<^verbatim>\<open>txHash\<close> is assigned only by the \<^verbatim>\<open>transactionHash\<close> listener: when it holds \<open>h\<close>
  after a run, the event with hash \<open>h\<close> is part of the schedule.
\<close>

lemma save_txHash_observed:
  assumes "txHash (final (save c sender sched)) = Some h"
  shows "Tx_hash h \<in> set sched"
proof -
  obtain st0 a0 where start: "save_start c sender = (st0, a0)" by (cases "save_start c sender")
  then have none: "txHash st0 = None"
    by (auto simp: save_start_def initial_def split: if_splits)
  obtain st rs where ex: "exec (save_step c sender) st0 sched = (st, rs)"
    by (cases "exec (save_step c sender) st0 sched")
  have "final (save c sender sched) = st" by (simp add: save_def start ex)
  with assms have "txHash st = Some h" by simp
  with exec_txHash [of "save_step c sender", OF save_step_txHash ex] none
  show ?thesis by auto
qed

lemma cancel_txHash_observed:
  assumes "txHash (final (cancel c sender sched)) = Some h"
  shows "Tx_hash h \<in> set sched"
proof -
  obtain st0 a0 where start: "cancel_start c sender = (st0, a0)"
    by (cases "cancel_start c sender")
  then have none: "txHash st0 = None"
    by (auto simp: cancel_start_def initial_def)
  obtain st rs where ex: "exec (cancel_step c sender) st0 sched = (st, rs)"
    by (cases "exec (cancel_step c sender) st0 sched")
  have "final (cancel c sender sched) = st" by (simp add: cancel_def start ex)
  with assms have "txHash st = Some h" by simp
  with exec_txHash [of "cancel_step c sender", OF cancel_step_txHash ex] none
  show ?thesis by auto
qed

section \<open>After the chain call has settled\<close>

text \<open>
  Once the chain call of \<^verbatim>\<open>save\<close> has settled, the only handlers left are those of the
  store: a later stimulus can make \<^verbatim>\<open>save\<close> create the record (a late
  \<^verbatim>\<open>transactionHash\<close>) or call \<^verbatim>\<open>afterCreate\<close>, and nothing else; in particular neither
  \<^verbatim>\<open>afterMined\<close> nor the error sink runs again.
\<close>

lemma save_step_reachable:
  assumes "truthy (campaign_id c) \<longrightarrow> p_network st = Not_started \<and> p_tx st = Not_started"
    and "p_tx st \<noteq> Not_started \<longrightarrow> p_network st \<noteq> Pending"
    and "save_step c sender st s = (st', out)"
  shows "(truthy (campaign_id c) \<longrightarrow> p_network st' = Not_started \<and> p_tx st' = Not_started)
       \<and> (p_tx st' \<noteq> Not_started \<longrightarrow> p_network st' \<noteq> Pending)"
  using assms by (cases s) (auto split: if_splits)

lemma save_exec_reachable:
  assumes "truthy (campaign_id c) \<longrightarrow> p_network st = Not_started \<and> p_tx st = Not_started"
    and "p_tx st \<noteq> Not_started \<longrightarrow> p_network st \<noteq> Pending"
    and "exec (save_step c sender) st ss = (st', rs)"
  shows "(truthy (campaign_id c) \<longrightarrow> p_network st' = Not_started \<and> p_tx st' = Not_started)
       \<and> (p_tx st' \<noteq> Not_started \<longrightarrow> p_network st' \<noteq> Pending)"
  using assms
proof (induction ss arbitrary: st st' rs)
  case Nil
  then show ?case by simp
next
  case (Cons s ss)
  obtain st1 out where one: "save_step c sender st s = (st1, out)"
    by (cases "save_step c sender st s")
  obtain st2 rs2 where rest: "exec (save_step c sender) st1 ss = (st2, rs2)"
    by (cases "exec (save_step c sender) st1 ss")
  from Cons.prems(3) one rest have st': "st' = st2" by simp
  from save_step_reachable [OF Cons.prems(1,2) one]
  have "truthy (campaign_id c) \<longrightarrow> p_network st1 = Not_started \<and> p_tx st1 = Not_started"
    and "p_tx st1 \<noteq> Not_started \<longrightarrow> p_network st1 \<noteq> Pending" by auto
  from Cons.IH [OF this rest] st' show ?case by simp
qed

lemma save_step_settled:
  assumes "\<not> truthy (campaign_id c)" "p_network st \<noteq> Pending"
    and "p_tx st \<noteq> Pending" "p_tx st \<noteq> Not_started"
    and "save_step c sender st s = (st', out)"
  shows "p_network st' \<noteq> Pending \<and> p_tx st' \<noteq> Pending \<and> p_tx st' \<noteq> Not_started
       \<and> (\<forall>a \<in> set out. (\<exists>d. a = Store_create ''campaigns'' d) \<or> (\<exists>args. a = Call afterCreate args))"
  using assms by (cases s) (auto split: if_splits)

lemma save_exec_settled:
  assumes "\<not> truthy (campaign_id c)" "p_network st \<noteq> Pending"
    and "p_tx st \<noteq> Pending" "p_tx st \<noteq> Not_started"
    and "exec (save_step c sender) st ss = (st', rs)"
  shows "\<forall>a \<in> set (concat (map snd rs)).
           (\<exists>d. a = Store_create ''campaigns'' d) \<or> (\<exists>args. a = Call afterCreate args)"
  using assms
proof (induction ss arbitrary: st st' rs)
  case Nil
  then show ?case by simp
next
  case (Cons s ss)
  obtain st1 out where one: "save_step c sender st s = (st1, out)"
    by (cases "save_step c sender st s")
  obtain st2 rs2 where rest: "exec (save_step c sender) st1 ss = (st2, rs2)"
    by (cases "exec (save_step c sender) st1 ss")
  from Cons.prems(5) one rest have rs: "rs = (s, out) # rs2" by simp
  from save_step_settled [OF Cons.prems(1-4) one]
  have inv: "p_network st1 \<noteq> Pending" "p_tx st1 \<noteq> Pending" "p_tx st1 \<noteq> Not_started"
    and out: "\<forall>a \<in> set out. (\<exists>d. a = Store_create ''campaigns'' d) \<or> (\<exists>args. a = Call afterCreate args)"
    by auto
  from Cons.IH [OF Cons.prems(1) inv rest] out rs show ?case by auto
qed

lemma save_after_chain_settled:
  assumes "p_tx (final (save c sender sched)) \<noteq> Pending"
    and "p_tx (final (save c sender sched)) \<noteq> Not_started"
  shows "\<forall>a \<in> set (concat (map snd (drop (length sched) (reactions (save c sender (sched @ rest)))))).
           (\<exists>d. a = Store_create ''campaigns'' d) \<or> (\<exists>args. a = Call afterCreate args)"
proof -
  obtain st0 a0 where start: "save_start c sender = (st0, a0)" by (cases "save_start c sender")
  obtain st rs where ex: "exec (save_step c sender) st0 sched = (st, rs)"
    by (cases "exec (save_step c sender) st0 sched")
  obtain st' rs' where ex': "exec (save_step c sender) st rest = (st', rs')"
    by (cases "exec (save_step c sender) st rest")
  have fin: "final (save c sender sched) = st" by (simp add: save_def start ex)
  have len: "length rs = length sched"
    using ex by (induction sched arbitrary: st0 st rs) (auto split: prod.splits)
  have all: "reactions (save c sender (sched @ rest)) = rs @ rs'"
    by (simp add: save_def start exec_append ex ex')
  have init: "truthy (campaign_id c) \<longrightarrow> p_network st0 = Not_started \<and> p_tx st0 = Not_started"
    "p_tx st0 \<noteq> Not_started \<longrightarrow> p_network st0 \<noteq> Pending"
    using start by (auto simp: save_start_def initial_def split: if_splits)
  from save_exec_reachable [OF init ex] assms fin
  have "\<not> truthy (campaign_id c)" "p_network st \<noteq> Pending" by auto
  from save_exec_settled [OF this _ _ ex'] assms fin
  have "\<forall>a \<in> set (concat (map snd rs')).
           (\<exists>d. a = Store_create ''campaigns'' d) \<or> (\<exists>args. a = Call afterCreate args)"
    by simp
  then show ?thesis by (simp add: all len)
qed

text \<open>
  The same for \<^verbatim>\<open>cancel\<close>: what is left are the patch (sent by a late
  \<^verbatim>\<open>transactionHash\<close>, with its immediate \<^verbatim>\<open>afterCreate\<close>) and the report of a rejected
  patch.
\<close>

lemma cancel_step_reachable:
  assumes "p_tx st \<noteq> Not_started \<longrightarrow> p_network st \<noteq> Pending \<and> p_web3 st \<noteq> Pending"
    and "cancel_step c sender st s = (st', out)"
  shows "p_tx st' \<noteq> Not_started \<longrightarrow> p_network st' \<noteq> Pending \<and> p_web3 st' \<noteq> Pending"
  using assms
  by (cases s) (auto simp: cancel_all_then_def split: if_splits promise.splits)

lemma cancel_exec_reachable:
  assumes "p_tx st \<noteq> Not_started \<longrightarrow> p_network st \<noteq> Pending \<and> p_web3 st \<noteq> Pending"
    and "exec (cancel_step c sender) st ss = (st', rs)"
  shows "p_tx st' \<noteq> Not_started \<longrightarrow> p_network st' \<noteq> Pending \<and> p_web3 st' \<noteq> Pending"
  using assms
proof (induction ss arbitrary: st st' rs)
  case Nil
  then show ?case by simp
next
  case (Cons s ss)
  obtain st1 out where one: "cancel_step c sender st s = (st1, out)"
    by (cases "cancel_step c sender st s")
  obtain st2 rs2 where rest: "exec (cancel_step c sender) st1 ss = (st2, rs2)"
    by (cases "exec (cancel_step c sender) st1 ss")
  from Cons.prems(2) one rest have st': "st' = st2" by simp
  from Cons.IH [OF cancel_step_reachable [OF Cons.prems(1) one] rest] st'
  show ?case by simp
qed

lemma cancel_step_settled:
  assumes "p_network st \<noteq> Pending" "p_web3 st \<noteq> Pending"
    and "p_tx st \<noteq> Pending" "p_tx st \<noteq> Not_started"
    and "cancel_step c sender st s = (st', out)"
  shows "p_network st' \<noteq> Pending \<and> p_web3 st' \<noteq> Pending
       \<and> p_tx st' \<noteq> Pending \<and> p_tx st' \<noteq> Not_started
       \<and> (\<forall>a \<in> set out.
            (\<exists>i d. a = Store_patch ''/campaigns'' i d) \<or> (\<exists>args. a = Call afterCreate args)
            \<or> (\<exists>d. a = ErrorPopup cancel_patch_message d))"
  using assms by (cases s) (auto split: if_splits)

lemma cancel_exec_settled:
  assumes "p_network st \<noteq> Pending" "p_web3 st \<noteq> Pending"
    and "p_tx st \<noteq> Pending" "p_tx st \<noteq> Not_started"
    and "exec (cancel_step c sender) st ss = (st', rs)"
  shows "\<forall>a \<in> set (concat (map snd rs)).
           (\<exists>i d. a = Store_patch ''/campaigns'' i d) \<or> (\<exists>args. a = Call afterCreate args)
           \<or> (\<exists>d. a = ErrorPopup cancel_patch_message d)"
  using assms
proof (induction ss arbitrary: st st' rs)
  case Nil
  then show ?case by simp
next
  case (Cons s ss)
  obtain st1 out where one: "cancel_step c sender st s = (st1, out)"
    by (cases "cancel_step c sender st s")
  obtain st2 rs2 where rest: "exec (cancel_step c sender) st1 ss = (st2, rs2)"
    by (cases "exec (cancel_step c sender) st1 ss")
  from Cons.prems(5) one rest have rs: "rs = (s, out) # rs2" by simp
  from cancel_step_settled [OF Cons.prems(1-4) one]
  have inv: "p_network st1 \<noteq> Pending" "p_web3 st1 \<noteq> Pending"
      "p_tx st1 \<noteq> Pending" "p_tx st1 \<noteq> Not_started"
    and out: "\<forall>a \<in> set out.
            (\<exists>i d. a = Store_patch ''/campaigns'' i d) \<or> (\<exists>args. a = Call afterCreate args)
            \<or> (\<exists>d. a = ErrorPopup cancel_patch_message d)"
    by auto
  from Cons.IH [OF inv rest] out rs show ?case by auto
qed

lemma cancel_after_chain_settled:
  assumes "p_tx (final (cancel c sender sched)) \<noteq> Pending"
    and "p_tx (final (cancel c sender sched)) \<noteq> Not_started"
  shows "\<forall>a \<in> set (concat (map snd (drop (length sched) (reactions (cancel c sender (sched @ rest)))))).
           (\<exists>i d. a = Store_patch ''/campaigns'' i d) \<or> (\<exists>args. a = Call afterCreate args)
           \<or> (\<exists>d. a = ErrorPopup cancel_patch_message d)"
proof -
  let ?st0 = "initial\<lparr>p_network := Pending, p_web3 := Pending\<rparr>"
  obtain st rs where ex: "exec (cancel_step c sender) ?st0 sched = (st, rs)"
    by (cases "exec (cancel_step c sender) ?st0 sched")
  obtain st' rs' where ex': "exec (cancel_step c sender) st rest = (st', rs')"
    by (cases "exec (cancel_step c sender) st rest")
  have fin: "final (cancel c sender sched) = st" by (simp add: cancel_def cancel_start_def ex)
  have len: "length rs = length sched"
    using ex by (induction sched arbitrary: st rs rule: rev_induct) (auto simp: exec_append split: prod.splits)
  have all: "reactions (cancel c sender (sched @ rest)) = rs @ rs'"
    by (simp add: cancel_def cancel_start_def exec_append ex ex')
  have init: "p_tx ?st0 \<noteq> Not_started \<longrightarrow> p_network ?st0 \<noteq> Pending \<and> p_web3 ?st0 \<noteq> Pending"
    by (simp add: initial_def)
  from cancel_exec_reachable [OF init ex] assms fin
  have "p_network st \<noteq> Pending" "p_web3 st \<noteq> Pending" by auto
  from cancel_exec_settled [OF this _ _ ex'] assms fin
  have "\<forall>a \<in> set (concat (map snd rs')).
           (\<exists>i d. a = Store_patch ''/campaigns'' i d) \<or> (\<exists>args. a = Call afterCreate args)
           \<or> (\<exists>d. a = ErrorPopup cancel_patch_message d)"
    by simp
  then show ?thesis by (simp add: all len)
qed

section \<open>Failures of the chain call\<close>























end
